theory Spec2Isabelle
  imports Complex_Main "HOL-Library.AList" "HOL-Library.Log_Nat"
begin

section \<open>Python text primitives\<close>

text \<open>
  Text is a list of characters, and a character is a Unicode code point below 256
  (Latin-1). On this range the character classes below are those of Python's \<open>str\<close>:
  \<open>str.isspace\<close>, which is also what \<open>str.strip\<close>, \<open>str.split\<close> and the pattern
  \<open>\s\<close> go by; the pattern \<open>\w\<close> (letters, digits and the underscore); and
  \<open>str.lower\<close>, which maps every capital letter to the code point 32 above it. Code
  points from 256 on are outside the scope of this development.
\<close>

definition is_space :: "char \<Rightarrow> bool" where
  "is_space c =
     (let n = (of_char c :: nat)
      in (9 \<le> n \<and> n \<le> 13) \<or> (28 \<le> n \<and> n \<le> 32) \<or> n = 133 \<or> n = 160)"

definition is_word_char :: "char \<Rightarrow> bool" where
  "is_word_char c =
     (let n = (of_char c :: nat)
      in (48 \<le> n \<and> n \<le> 57) \<or> (65 \<le> n \<and> n \<le> 90) \<or> n = 95 \<or> (97 \<le> n \<and> n \<le> 122)
         \<or> n = 170 \<or> (178 \<le> n \<and> n \<le> 179) \<or> n = 181 \<or> (185 \<le> n \<and> n \<le> 186)
         \<or> (188 \<le> n \<and> n \<le> 190) \<or> (192 \<le> n \<and> n \<le> 214) \<or> (216 \<le> n \<and> n \<le> 246)
         \<or> (248 \<le> n \<and> n \<le> 255))"

definition lower_char :: "char \<Rightarrow> char" where
  "lower_char c =
     (let n = (of_char c :: nat)
      in if (65 \<le> n \<and> n \<le> 90) \<or> (192 \<le> n \<and> n \<le> 214) \<or> (216 \<le> n \<and> n \<le> 222)
         then char_of (n + 32)
         else c)"

definition py_lower :: "string \<Rightarrow> string" where
  "py_lower s = map lower_char s"

text \<open>\<open>s.strip()\<close>: remove leading and trailing whitespace.\<close>

definition py_strip :: "string \<Rightarrow> string" where
  "py_strip s = rev (dropWhile is_space (rev (dropWhile is_space s)))"

text \<open>
  \<open>s.split()\<close>: the maximal runs of non-whitespace characters, in order. The first
  argument is the word being read.
\<close>

fun split_from :: "string \<Rightarrow> string \<Rightarrow> string list" where
  "split_from cur [] = (if cur = [] then [] else [cur])"
| "split_from cur (c # cs) =
     (if is_space c then (if cur = [] then split_from [] cs else cur # split_from [] cs)
      else split_from (cur @ [c]) cs)"

definition py_split :: "string \<Rightarrow> string list" where
  "py_split s = split_from [] s"

text \<open>\<open>w in s\<close> on strings: \<open>w\<close> occurs in \<open>s\<close> as a contiguous substring.\<close>

fun starts_with :: "string \<Rightarrow> string \<Rightarrow> bool" where
  "starts_with [] s = True"
| "starts_with (c # cs) [] = False"
| "starts_with (c # cs) (d # ds) = (c = d \<and> starts_with cs ds)"

fun py_in :: "string \<Rightarrow> string \<Rightarrow> bool" where
  "py_in w [] = (w = [])"
| "py_in w (d # ds) = (starts_with w (d # ds) \<or> py_in w ds)"

text \<open>\<open>re.sub(r'[^\w\s]', '', s)\<close>: delete every character that is neither a word
  character nor whitespace.\<close>

definition strip_punct :: "string \<Rightarrow> string" where
  "strip_punct s = filter (\<lambda>c. is_word_char c \<or> is_space c) s"

section \<open>Python floats\<close>

text \<open>
  A Python float is an IEEE 754 binary64 number, modelled as the rational it denotes.
  Every arithmetic operation returns the exact result rounded to the nearest number with
  a 53-bit significand, ties to the even significand (\<open>fl\<close>). Overflow and subnormal
  numbers are not modelled: the floats of this program are keyword scores between 0 and
  15 and quotients of two list lengths.
\<close>

type_synonym pyfloat = rat

definition round_half_even :: "rat \<Rightarrow> int" where
  "round_half_even q =
     (let f = \<lfloor>q\<rfloor>; r = q - of_int f
      in if r < 1 / 2 then f else if 1 / 2 < r then f + 1 else if even f then f else f + 1)"

text \<open>For \<open>x > 0\<close>, the exponent \<open>e\<close> with \<open>2 ^ e \<le> x < 2 ^ (e + 1)\<close>.\<close>

definition floor_log2 :: "rat \<Rightarrow> int" where
  "floor_log2 x =
     (let (p, q) = quotient_of x; d = bitlen p - bitlen q
      in if 2 powi d \<le> x then d else d - 1)"

definition fl :: "rat \<Rightarrow> pyfloat" where
  "fl x =
     (if x = 0 then 0
      else let u = 2 powi (floor_log2 \<bar>x\<bar> - 52)
           in of_int (round_half_even (x / u)) * u)"

definition fadd :: "pyfloat \<Rightarrow> pyfloat \<Rightarrow> pyfloat" where
  "fadd a b = fl (a + b)"

definition fmul :: "pyfloat \<Rightarrow> pyfloat \<Rightarrow> pyfloat" where
  "fmul a b = fl (a * b)"

text \<open>\<open>m / n\<close> on two ints (true division), for \<open>n \<noteq> 0\<close>.\<close>

definition py_truediv :: "nat \<Rightarrow> nat \<Rightarrow> pyfloat" where
  "py_truediv m n = fl (of_nat m / of_nat n)"

text \<open>
  \<open>max(xs, key=k)\<close> on a non-empty sequence: the first element whose key no other
  element exceeds; a later element replaces the best so far only when its key is
  strictly greater.
\<close>

definition py_max :: "('a \<Rightarrow> 'k::linorder) \<Rightarrow> 'a \<Rightarrow> 'a list \<Rightarrow> 'a" where
  "py_max key x xs = foldl (\<lambda>best y. if key best < key y then y else best) x xs"

section \<open>JSON documents and the files that hold them\<close>

text \<open>
  A JSON value as \<open>json.load\<close> returns it. Numbers are integers: the only numbers this
  program writes are word counts.
\<close>

datatype json =
    JNull
  | JBool bool
  | JInt int
  | JStr string
  | JList "json list"
  | JDict "(string \<times> json) list"

type_synonym pydict = "(string \<times> json) list"

text \<open>
  A Python dict keeps its keys in insertion order: an association list, where
  assigning to a key that is present replaces its value in place and assigning to a new
  key appends it (\<^const>\<open>AList.update\<close>).
\<close>

definition dict_has :: "pydict \<Rightarrow> string \<Rightarrow> bool" where
  "dict_has d k = (map_of d k \<noteq> None)"

definition dict_get :: "pydict \<Rightarrow> string \<Rightarrow> json \<Rightarrow> json" where
  "dict_get d k dflt = (case map_of d k of None \<Rightarrow> dflt | Some v \<Rightarrow> v)"

definition dict_set :: "pydict \<Rightarrow> string \<Rightarrow> json \<Rightarrow> pydict" where
  "dict_set d k v = AList.update k v d"

text \<open>
  What \<open>open\<close> followed by \<open>json.load\<close> meets at a path: no file, a file that cannot
  be read, a file that is not JSON, or a JSON document.
\<close>

datatype file_state = Missing | Unreadable | Corrupt | Doc json

text \<open>
  What \<open>open(path, 'w')\<close> followed by \<open>json.dump\<close> does: it replaces the file by the
  document, or \<open>open\<close> raises \<open>PermissionError\<close> and the file is untouched, or another
  exception is raised on the way and the file is left in the given state.
\<close>

datatype write_outcome = WriteOk | PermissionDenied | WriteFails file_state

datatype py_exception = AttributeError | TypeError

text \<open>Truth value of a JSON value in a condition (\<open>not v\<close> is its negation).\<close>

definition py_truthy :: "json \<Rightarrow> bool" where
  "py_truthy v =
     (case v of
        JNull \<Rightarrow> False
      | JBool b \<Rightarrow> b
      | JInt n \<Rightarrow> n \<noteq> 0
      | JStr s \<Rightarrow> s \<noteq> []
      | JList xs \<Rightarrow> xs \<noteq> []
      | JDict d \<Rightarrow> d \<noteq> [])"

section \<open>The conversation log (memory.py)\<close>

text \<open>
  \<open>load_conversation_history\<close>. The clock is read as \<open>now\<close>
  (\<open>datetime.now().isoformat()\<close>) and \<open>today\<close> (its \<open>%Y-%m-%d\<close> form), taken as
  constant during one call. Every failure ends in the empty list.
\<close>

definition backfill :: "string \<Rightarrow> string \<Rightarrow> pydict \<Rightarrow> pydict" where
  "backfill now today conv =
     (let c1 = (if \<not> dict_has conv ''timestamp'' then dict_set conv ''timestamp'' (JStr now) else conv);
          c2 = (if \<not> dict_has c1 ''date'' then dict_set c1 ''date'' (JStr today) else c1);
          c3 = (if \<not> dict_has c2 ''domain'' then dict_set c2 ''domain'' (JStr ''general'') else c2)
      in c3)"

fun validate_loop :: "string \<Rightarrow> string \<Rightarrow> json list \<Rightarrow> pydict list \<Rightarrow> pydict list" where
  "validate_loop now today [] valid_conversations = valid_conversations"
| "validate_loop now today (conv # data) valid_conversations =
     (case conv of
        JDict d \<Rightarrow>
          if dict_has d ''user'' \<and> dict_has d ''assistant''
          then validate_loop now today data (valid_conversations @ [backfill now today d])
          else validate_loop now today data valid_conversations
      | _ \<Rightarrow> validate_loop now today data valid_conversations)"

definition load_conversation_history :: "string \<Rightarrow> string \<Rightarrow> file_state \<Rightarrow> pydict list" where
  "load_conversation_history now today f =
     (case f of
        Doc data \<Rightarrow>
          (case data of
             JList entries \<Rightarrow> validate_loop now today entries []
           | _ \<Rightarrow> [])
      | _ \<Rightarrow> [])"

text \<open>
  Predicates of this development, used to state what the loop does: the entries that the
  loop keeps (\<open>has_both_keys\<close>), the object each of them is, and a record that has all
  five keys. The specification calls a record valid when its user and assistant texts are
  not empty (\<open>nonempty_text_record\<close>).
\<close>

definition has_both_keys :: "json \<Rightarrow> bool" where
  "has_both_keys conv =
     (case conv of JDict d \<Rightarrow> dict_has d ''user'' \<and> dict_has d ''assistant'' | _ \<Rightarrow> False)"

definition entry_dict :: "json \<Rightarrow> pydict" where
  "entry_dict conv = (case conv of JDict d \<Rightarrow> d | _ \<Rightarrow> [])"

definition complete_record :: "pydict \<Rightarrow> bool" where
  "complete_record conv =
     (dict_has conv ''user'' \<and> dict_has conv ''assistant'' \<and> dict_has conv ''timestamp''
      \<and> dict_has conv ''date'' \<and> dict_has conv ''domain'')"

definition nonempty_text :: "json option \<Rightarrow> bool" where
  "nonempty_text v = (case v of Some (JStr s) \<Rightarrow> s \<noteq> [] | _ \<Rightarrow> False)"

definition nonempty_text_record :: "pydict \<Rightarrow> bool" where
  "nonempty_text_record conv =
     (nonempty_text (map_of conv ''user'') \<and> nonempty_text (map_of conv ''assistant''))"

text \<open>
  \<open>get_recent_conversations\<close>. \<open>history[-count:]\<close> with a positive \<open>count\<close> is the
  last \<open>count\<close> elements, and the whole list when \<open>count\<close> exceeds its length.
\<close>

definition slice_last :: "int \<Rightarrow> 'a list \<Rightarrow> 'a list" where
  "slice_last count xs = drop (nat (int (length xs) - count)) xs"

definition get_recent_conversations :: "string \<Rightarrow> string \<Rightarrow> file_state \<Rightarrow> int \<Rightarrow> pydict list" where
  "get_recent_conversations now today f count =
     (let history = load_conversation_history now today f
      in if history = [] then []
         else slice_last (max 1 (min count (int (length history)))) history)"

text \<open>
  \<open>save_conversation\<close>. Both messages are text. The result is the returned flag and
  the file afterwards.
\<close>

definition new_conversation :: "string \<Rightarrow> string \<Rightarrow> string \<Rightarrow> string \<Rightarrow> string \<Rightarrow> pydict" where
  "new_conversation now today user_message bot_response domain =
     [(''user'', JStr (py_strip user_message)),
      (''assistant'', JStr (py_strip bot_response)),
      (''domain'', JStr domain),
      (''timestamp'', JStr now),
      (''date'', JStr today),
      (''user_word_count'', JInt (int (length (py_split user_message)))),
      (''assistant_word_count'', JInt (int (length (py_split bot_response))))]"

definition capped_history :: "string \<Rightarrow> string \<Rightarrow> file_state \<Rightarrow> pydict \<Rightarrow> pydict list" where
  "capped_history now today f conversation =
     (let history = load_conversation_history now today f @ [conversation]
      in if 100 < length history then slice_last 100 history else history)"

definition save_conversation ::
  "string \<Rightarrow> string \<Rightarrow> write_outcome \<Rightarrow> file_state \<Rightarrow> string \<Rightarrow> string \<Rightarrow> string
     \<Rightarrow> bool \<times> file_state" where
  "save_conversation now today w f user_message bot_response domain =
     (if user_message = [] \<or> bot_response = [] then (False, f)
      else
        (let conversation = new_conversation now today user_message bot_response domain;
             history = capped_history now today f conversation
         in case w of
              WriteOk \<Rightarrow> (True, Doc (JList (map JDict history)))
            | PermissionDenied \<Rightarrow> (False, f)
            | WriteFails f' \<Rightarrow> (False, f')))"

text \<open>
  \<open>find_relevant_conversations\<close>. A field of a record that is text is formatted as
  itself; \<open>fmt\<close> stands for Python's \<open>str()\<close> on every other JSON value.
\<close>

definition field_text :: "(json \<Rightarrow> string) \<Rightarrow> json \<Rightarrow> string" where
  "field_text fmt v = (case v of JStr s \<Rightarrow> s | _ \<Rightarrow> fmt v)"

definition conv_cleaned :: "(json \<Rightarrow> string) \<Rightarrow> pydict \<Rightarrow> string" where
  "conv_cleaned fmt conv =
     (let conv_text =
            py_lower (field_text fmt (dict_get conv ''user'' (JStr []))
                      @ '' '' @ field_text fmt (dict_get conv ''assistant'' (JStr [])))
      in strip_punct conv_text)"

definition query_words_of :: "string \<Rightarrow> string list" where
  "query_words_of query =
     (let query_cleaned = strip_punct (py_lower query)
      in filter (\<lambda>word. 2 < length word) (py_split query_cleaned))"

fun count_matches :: "string \<Rightarrow> string list \<Rightarrow> nat \<Rightarrow> nat" where
  "count_matches conv_text [] matches = matches"
| "count_matches conv_text (word # query_words) matches =
     count_matches conv_text query_words
       (if py_in word conv_text then matches + 1 else matches)"

fun relevance_loop ::
  "(json \<Rightarrow> string) \<Rightarrow> string list \<Rightarrow> pydict list \<Rightarrow> (pydict \<times> pyfloat) list
     \<Rightarrow> (pydict \<times> pyfloat) list" where
  "relevance_loop fmt query_words [] relevant = relevant"
| "relevance_loop fmt query_words (conv # history) relevant =
     (let matches = count_matches (conv_cleaned fmt conv) query_words 0
      in if 0 < matches
         then relevance_loop fmt query_words history
                (relevant @ [(conv, py_truediv matches (length query_words))])
         else relevance_loop fmt query_words history relevant)"

text \<open>The list \<open>relevant\<close> as it stands before it is sorted (lines 88 to 115).\<close>

definition scored_matches ::
  "(json \<Rightarrow> string) \<Rightarrow> string \<Rightarrow> string \<Rightarrow> file_state \<Rightarrow> string \<Rightarrow> (pydict \<times> pyfloat) list" where
  "scored_matches fmt now today f query =
     (let history = load_conversation_history now today f
      in if history = [] \<or> query = [] then []
         else
           (let query_words = query_words_of query
            in if query_words = [] then []
               else relevance_loop fmt query_words history []))"

text \<open>
  \<open>relevant.sort(key=lambda x: x[1], reverse=True)\<close> is a stable sort into descending
  order of the key: elements with equal keys keep their order.
\<close>

definition sort_descending :: "(pydict \<times> pyfloat) list \<Rightarrow> (pydict \<times> pyfloat) list" where
  "sort_descending relevant = sort_key (\<lambda>x. - snd x) relevant"

definition find_relevant_conversations ::
  "(json \<Rightarrow> string) \<Rightarrow> string \<Rightarrow> string \<Rightarrow> file_state \<Rightarrow> string \<Rightarrow> int \<Rightarrow> pydict list" where
  "find_relevant_conversations fmt now today f query max_results =
     (let history = load_conversation_history now today f
      in if history = [] \<or> query = [] then []
         else if query_words_of query = [] then []
         else
           (let relevant = sort_descending (scored_matches fmt now today f query);
                max_results' = max 1 (min max_results (int (length relevant)))
            in map fst (take (nat max_results') relevant)))"

text \<open>The query tokens that occur in the cleaned text of a record, one entry for each
  place the token has in the query.\<close>

definition matching_words :: "(json \<Rightarrow> string) \<Rightarrow> string \<Rightarrow> pydict \<Rightarrow> string list" where
  "matching_words fmt query conv =
     filter (\<lambda>word. py_in word (conv_cleaned fmt conv)) (query_words_of query)"


text \<open>
  \<open>get_conversation_stats\<close>. It has no exception handler, so an exception inside it
  reaches the caller. A number is an int or a bool; as dict keys \<open>True\<close> and \<open>1\<close> are
  the same key, and a list or a dict is not hashable.
\<close>

record stats =
  total_conversations :: int
  total_words :: int
  domains :: "(json \<times> int) list"
  dates :: "(json \<times> int) list"

definition as_int :: "json \<Rightarrow> int option" where
  "as_int v =
     (case v of
        JInt n \<Rightarrow> Some n
      | JBool b \<Rightarrow> Some (if b then 1 else 0)
      | _ \<Rightarrow> None)"

definition hashable :: "json \<Rightarrow> bool" where
  "hashable v = (case v of JList xs \<Rightarrow> False | JDict d \<Rightarrow> False | _ \<Rightarrow> True)"

definition py_key_eq :: "json \<Rightarrow> json \<Rightarrow> bool" where
  "py_key_eq a b =
     (case as_int a of
        Some x \<Rightarrow> (case as_int b of Some y \<Rightarrow> x = y | None \<Rightarrow> False)
      | None \<Rightarrow> (case as_int b of Some y \<Rightarrow> False | None \<Rightarrow> a = b))"

text \<open>\<open>d[k] = d.get(k, 0) + 1\<close> on a dict of counters.\<close>

fun tally :: "json \<Rightarrow> (json \<times> int) list \<Rightarrow> (json \<times> int) list" where
  "tally k [] = [(k, 0 + 1)]"
| "tally k ((k', c) # rest) =
     (if py_key_eq k' k then (k', c + 1) # rest else (k', c) # tally k rest)"

text \<open>\<open>len(v.split())\<close>: only text has a \<open>split\<close> method.\<close>

definition split_len :: "json \<Rightarrow> py_exception + json" where
  "split_len v = (case v of JStr s \<Rightarrow> Inr (JInt (int (length (py_split s)))) | _ \<Rightarrow> Inl AttributeError)"

text \<open>
  \<open>stats['total_words'] += user_words + assistant_words\<close>: the sum of the two counts and
  then its sum with an int raise \<open>TypeError\<close> unless both counts are numbers.
\<close>

definition add_words :: "int \<Rightarrow> json \<Rightarrow> json \<Rightarrow> py_exception + int" where
  "add_words total_so_far user_words assistant_words =
     (case as_int user_words of
        None \<Rightarrow> Inl TypeError
      | Some u \<Rightarrow>
          (case as_int assistant_words of
             None \<Rightarrow> Inl TypeError
           | Some a \<Rightarrow> Inr (total_so_far + (u + a))))"

definition stats_step :: "stats \<Rightarrow> pydict \<Rightarrow> py_exception + stats" where
  "stats_step st conv =
     (case split_len (dict_get conv ''user'' (JStr [])) of
        Inl e \<Rightarrow> Inl e
      | Inr user_default \<Rightarrow>
     (case split_len (dict_get conv ''assistant'' (JStr [])) of
        Inl e \<Rightarrow> Inl e
      | Inr assistant_default \<Rightarrow>
     (case add_words (total_words st)
             (dict_get conv ''user_word_count'' user_default)
             (dict_get conv ''assistant_word_count'' assistant_default) of
        Inl e \<Rightarrow> Inl e
      | Inr words \<Rightarrow>
          (let domain = dict_get conv ''domain'' (JStr ''general'');
               date = dict_get conv ''date'' (JStr ''unknown'')
           in if \<not> hashable domain then Inl TypeError
              else if \<not> hashable date then Inl TypeError
              else Inr (st\<lparr>total_words := words,
                            domains := tally domain (domains st),
                            dates := tally date (dates st)\<rparr>)))))"

fun stats_loop :: "pydict list \<Rightarrow> stats \<Rightarrow> py_exception + stats" where
  "stats_loop [] st = Inr st"
| "stats_loop (conv # history) st =
     (case stats_step st conv of
        Inl e \<Rightarrow> Inl e
      | Inr st' \<Rightarrow> stats_loop history st')"

definition get_conversation_stats :: "string \<Rightarrow> string \<Rightarrow> file_state \<Rightarrow> py_exception + stats" where
  "get_conversation_stats now today f =
     (let history = load_conversation_history now today f
      in if history = []
         then Inr \<lparr>total_conversations = 0, total_words = 0, domains = [], dates = []\<rparr>
         else stats_loop history
                \<lparr>total_conversations = int (length history), total_words = 0,
                 domains = [], dates = []\<rparr>)"

text \<open>
  A record that \<open>get_conversation_stats\<close> can count (a predicate of this development,
  not of the source): what \<open>save_conversation\<close> writes has this shape.
\<close>

definition countable_record :: "pydict \<Rightarrow> bool" where
  "countable_record conv =
     ((case dict_get conv ''user'' (JStr []) of JStr s \<Rightarrow> True | _ \<Rightarrow> False)
      \<and> (case dict_get conv ''assistant'' (JStr []) of JStr s \<Rightarrow> True | _ \<Rightarrow> False)
      \<and> as_int (dict_get conv ''user_word_count'' (JInt 0)) \<noteq> None
      \<and> as_int (dict_get conv ''assistant_word_count'' (JInt 0)) \<noteq> None
      \<and> hashable (dict_get conv ''domain'' (JStr ''general''))
      \<and> hashable (dict_get conv ''date'' (JStr ''unknown'')))"

section \<open>The domain classifier (memory.py)\<close>

record domain_data =
  keyword_list :: "string list"
  weight :: pyfloat

definition domain_keywords :: "(string \<times> domain_data) list" where
  "domain_keywords =
     [(''work'',
         \<lparr>keyword_list = [''work'', ''job'', ''meeting'', ''deadline'', ''project'', ''career'',
            ''office'', ''task'', ''productivity'', ''business'', ''colleague'', ''boss'',
            ''employee'', ''salary'', ''promotion''],
          weight = 1\<rparr>),
      (''family'',
         \<lparr>keyword_list = [''family'', ''kids'', ''children'', ''spouse'', ''parent'', ''home'',
            ''dinner'', ''birthday'', ''vacation'', ''husband'', ''wife'', ''mother'', ''father'',
            ''son'', ''daughter''],
          weight = 1\<rparr>),
      (''entertainment'',
         \<lparr>keyword_list = [''movie'', ''music'', ''game'', ''book'', ''netflix'', ''fun'', ''hobby'',
            ''watch'', ''read'', ''play'', ''entertainment'', ''show'', ''series'', ''film''],
          weight = 1\<rparr>),
      (''health'',
         \<lparr>keyword_list = [''health'', ''exercise'', ''fitness'', ''doctor'', ''medical'', ''diet'',
            ''workout'', ''medicine'', ''hospital'', ''symptoms'', ''sick'', ''wellness''],
          weight = 1\<rparr>),
      (''learning'',
         \<lparr>keyword_list = [''learn'', ''study'', ''education'', ''course'', ''skill'', ''tutorial'',
            ''how to'', ''teach'', ''school'', ''university'', ''training'', ''knowledge''],
          weight = 1\<rparr>),
      (''finance'',
         \<lparr>keyword_list = [''money'', ''budget'', ''finance'', ''investment'', ''savings'', ''bank'',
            ''loan'', ''credit'', ''debt'', ''financial'', ''income'', ''expense''],
          weight = 1\<rparr>)]"

text \<open>
  One pass of the inner loop: \<open>score\<close> before the keyword, \<open>score\<close> after it. The
  source asks first whether the keyword occurs in the message at all, and only then
  whether it occurs between spaces.
\<close>

definition score_step :: "string \<Rightarrow> domain_data \<Rightarrow> pyfloat \<Rightarrow> string \<Rightarrow> pyfloat" where
  "score_step message_lower data score keyword =
     (if py_in keyword message_lower
      then (if py_in ('' '' @ keyword @ '' '') ('' '' @ message_lower @ '' '')
            then fadd score (weight data)
            else fadd score (fmul (weight data) (fl (7 / 10))))
      else score)"

definition domain_score :: "string \<Rightarrow> domain_data \<Rightarrow> pyfloat" where
  "domain_score message_lower data = foldl (score_step message_lower data) 0 (keyword_list data)"

definition domain_scores :: "string \<Rightarrow> (string \<times> pyfloat) list" where
  "domain_scores message_lower =
     map (\<lambda>(domain, data). (domain, domain_score message_lower data)) domain_keywords"

definition classify_message_domain :: "string \<Rightarrow> string" where
  "classify_message_domain message =
     (if message = [] then ''general''
      else
        (case domain_scores (py_lower message) of
           [] \<Rightarrow> ''general''
         | item # items \<Rightarrow>
             (let max_domain = py_max snd item items
              in if 0 < snd max_domain then fst max_domain else ''general'')))"

section \<open>The profile store (profiles.py)\<close>

text \<open>
  \<open>save_user_profile\<close>. The messages passed to \<open>st.error\<close> are returned with the result.
  The handler \<open>except json.JSONEncodeError\<close> names an attribute the \<open>json\<close> module does not
  have: an exception other than \<open>PermissionError\<close> reaches that clause, whose evaluation
  raises \<open>AttributeError\<close>, and this one leaves the function.
\<close>

datatype ui_error = NoProfileData | MissingRequiredField string | CannotWrite

text \<open>\<open>profile_data.get(field)\<close> as a condition: the field is there and its value is
  not empty.\<close>

definition field_filled :: "pydict \<Rightarrow> string \<Rightarrow> bool" where
  "field_filled profile_data field =
     (case map_of profile_data field of None \<Rightarrow> False | Some v \<Rightarrow> py_truthy v)"

fun first_missing :: "pydict \<Rightarrow> string list \<Rightarrow> string option" where
  "first_missing profile_data [] = None"
| "first_missing profile_data (field # required_fields) =
     (if \<not> field_filled profile_data field then Some field
      else first_missing profile_data required_fields)"

definition save_user_profile ::
  "write_outcome \<Rightarrow> file_state \<Rightarrow> json \<Rightarrow> (py_exception + bool) \<times> ui_error list \<times> file_state" where
  "save_user_profile w f profile_data =
     (if \<not> py_truthy profile_data then (Inr False, [NoProfileData], f)
      else
        (case profile_data of
           JDict d \<Rightarrow>
             (case first_missing d [''name'', ''role'', ''communication_style''] of
                Some field \<Rightarrow> (Inr False, [MissingRequiredField field], f)
              | None \<Rightarrow>
                  (case w of
                     WriteOk \<Rightarrow> (Inr True, [], Doc (JDict d))
                   | PermissionDenied \<Rightarrow> (Inr False, [CannotWrite], f)
                   | WriteFails f' \<Rightarrow> (Inl AttributeError, [], f')))
         | _ \<Rightarrow> (Inl AttributeError, [], f)))"

section \<open>Example data\<close>

definition conv1 :: pydict where
  "conv1 = [(''user'', JStr ''meeting about project deadline''), (''assistant'', JStr ''ok''),
            (''domain'', JStr ''work''), (''timestamp'', JStr ''t1''), (''date'', JStr ''d1'')]"

definition conv2 :: pydict where
  "conv2 = [(''user'', JStr ''family dinner plans''), (''assistant'', JStr ''ok''),
            (''domain'', JStr ''family''), (''timestamp'', JStr ''t2''), (''date'', JStr ''d2'')]"

definition conv3 :: pydict where
  "conv3 = [(''user'', JStr ''what movie should I watch''), (''assistant'', JStr ''ok''),
            (''domain'', JStr ''entertainment''), (''timestamp'', JStr ''t3''),
            (''date'', JStr ''d3'')]"

definition example_log :: file_state where
  "example_log = Doc (JList [JDict conv1, JDict conv2, JDict conv3])"

definition mixed_document :: json where
  "mixed_document = JList
     [JDict [(''user'', JStr ''hi''), (''assistant'', JStr ''hello''), (''domain'', JStr ''work'')],
      JInt 3,
      JDict [(''user'', JStr ''only a user'')],
      JStr ''text'',
      JDict [(''assistant'', JStr []), (''user'', JStr []), (''date'', JStr ''d'')]]"

text \<open>Text beyond ASCII: \<open>caf\<close> followed by the letter e with an acute accent
  (code point 233), and the same in capitals (code point 201).\<close>

definition cafe :: string where
  "cafe = ''caf'' @ [CHR 0xE9]"


definition cafe_conv1 :: pydict where
  "cafe_conv1 = [(''user'', JStr ''caf shop''), (''assistant'', JStr ''a''),
                 (''domain'', JStr ''general''), (''timestamp'', JStr ''t1''),
                 (''date'', JStr ''d1'')]"

definition cafe_conv2 :: pydict where
  "cafe_conv2 = [(''user'', JStr (cafe @ '' shop'')), (''assistant'', JStr ''b''),
                 (''domain'', JStr ''general''), (''timestamp'', JStr ''t2''),
                 (''date'', JStr ''d2'')]"

definition cafe_log :: file_state where
  "cafe_log = Doc (JList [JDict cafe_conv1, JDict cafe_conv2])"


definition full_log :: file_state where
  "full_log = Doc (JList (replicate 100
     (JDict [(''user'', JStr ''a''), (''assistant'', JStr ''b'')])))"

definition incomplete_profile :: pydict where
  "incomplete_profile =
     [(''name'', JStr ''Ann''), (''role'', JStr []), (''communication_style'', JStr ''Casual'')]"

section \<open>Properties\<close>

subsection \<open>Substrings, rounding and the maximum\<close>

lemma starts_with_iff: "starts_with w s \<longleftrightarrow> (\<exists>ss. s = w @ ss)"
  by (induction w s rule: starts_with.induct) auto

lemma py_in_iff: "py_in w s \<longleftrightarrow> (\<exists>ps ss. s = ps @ w @ ss)"
proof (induction s)
  case Nil
  then show ?case by auto
next
  case (Cons d ds)
  show ?case
  proof
    assume "py_in w (d # ds)"
    then consider "starts_with w (d # ds)" | "py_in w ds" by auto
    then show "\<exists>ps ss. d # ds = ps @ w @ ss"
    proof cases
      case 1
      then obtain ss where "d # ds = w @ ss" using starts_with_iff by blast
      then have "d # ds = [] @ w @ ss" by simp
      then show ?thesis by blast
    next
      case 2
      then obtain ps ss where "ds = ps @ w @ ss" using Cons.IH by blast
      then have "d # ds = (d # ps) @ w @ ss" by simp
      then show ?thesis by blast
    qed
  next
    assume "\<exists>ps ss. d # ds = ps @ w @ ss"
    then obtain ps ss where e: "d # ds = ps @ w @ ss" by blast
    show "py_in w (d # ds)"
    proof (cases ps)
      case Nil
      then have "starts_with w (d # ds)" using e starts_with_iff by auto
      then show ?thesis by simp
    next
      case (Cons p ps')
      then have "ds = ps' @ w @ ss" using e by simp
      then have "py_in w ds" using Cons.IH by blast
      then show ?thesis by simp
    qed
  qed
qed

lemma whole_word_in:
  assumes "py_in ('' '' @ k @ '' '') ('' '' @ m @ '' '')"
  shows "py_in k m"
proof -
  from assms obtain ps ss where e: "'' '' @ m @ '' '' = ps @ ('' '' @ k @ '' '') @ ss"
    using py_in_iff by blast
  show ?thesis
  proof (cases ps)
    case Nil
    with e have e1: "m @ '' '' = k @ '' '' @ ss" by simp
    show ?thesis
    proof (cases ss rule: rev_cases)
      case Nil
      with e1 have "m = k" by simp
      then have "m = [] @ k @ []" by simp
      then show ?thesis using py_in_iff by blast
    next
      case (snoc ss' c)
      with e1 have "m @ '' '' = (k @ '' '' @ ss') @ [c]" by simp
      then have "m = k @ '' '' @ ss'" by (metis butlast_snoc)
      then have "m = [] @ k @ ('' '' @ ss')" by simp
      then show ?thesis using py_in_iff by blast
    qed
  next
    case (Cons p ps')
    with e have e1: "m @ '' '' = ps' @ '' '' @ k @ '' '' @ ss" by auto
    show ?thesis
    proof (cases ss rule: rev_cases)
      case Nil
      with e1 have "m @ '' '' = (ps' @ '' '' @ k) @ '' ''" by simp
      then have "m = (ps' @ '' '') @ k @ []" by simp
      then show ?thesis using py_in_iff by blast
    next
      case (snoc ss' c)
      with e1 have "m @ '' '' = (ps' @ '' '' @ k @ '' '' @ ss') @ [c]" by simp
      then have "m = ps' @ '' '' @ k @ '' '' @ ss'" by (metis butlast_snoc)
      then have "m = (ps' @ '' '') @ k @ ('' '' @ ss')" by simp
      then show ?thesis using py_in_iff by blast
    qed
  qed
qed

lemma py_strip_frame:
  "\<exists>l t. s = l @ py_strip s @ t \<and> list_all is_space l \<and> list_all is_space t"
proof -
  let ?a = "dropWhile is_space s"
  have 1: "s = takeWhile is_space s @ ?a" by simp
  have "takeWhile is_space (rev ?a) @ dropWhile is_space (rev ?a) = rev ?a"
    by (rule takeWhile_dropWhile_id)
  then have "rev (takeWhile is_space (rev ?a) @ dropWhile is_space (rev ?a)) = rev (rev ?a)"
    by (rule arg_cong)
  then have 2: "?a = py_strip s @ rev (takeWhile is_space (rev ?a))"
    unfolding py_strip_def rev_append rev_rev_ident by (rule sym)
  have 3: "list_all is_space (takeWhile is_space s)"
    unfolding list_all_iff using set_takeWhileD by fastforce
  have 4: "list_all is_space (rev (takeWhile is_space (rev ?a)))"
    unfolding list_all_iff using set_takeWhileD by fastforce
  from 1 2 have "s = takeWhile is_space s @ py_strip s @ rev (takeWhile is_space (rev ?a))"
    by metis
  with 3 4 show ?thesis by blast
qed

lemma py_strip_ends:
  assumes "py_strip s \<noteq> []"
  shows "\<not> is_space (hd (py_strip s)) \<and> \<not> is_space (last (py_strip s))"
proof -
  let ?a = "dropWhile is_space s"
  let ?b = "dropWhile is_space (rev ?a)"
  have b: "?b \<noteq> []" using assms by (simp add: py_strip_def)
  then have a: "?a \<noteq> []" by (metis dropWhile.simps(1) rev.simps(1))
  have "last (py_strip s) = hd ?b" using b by (simp add: py_strip_def last_rev)
  then have l: "\<not> is_space (last (py_strip s))" using b hd_dropWhile by metis
  obtain k where k: "?b = drop k (rev ?a)" using dropWhile_eq_drop by blast
  then have "last ?b = last (rev ?a)" using b by (metis last_drop drop_eq_Nil not_less)
  then have "hd (py_strip s) = hd ?a" using a b by (simp add: py_strip_def hd_rev last_rev)
  then have "\<not> is_space (hd (py_strip s))" using a hd_dropWhile by metis
  with l show ?thesis by blast
qed

lemma fl_nonneg: "0 \<le> x \<Longrightarrow> 0 \<le> fl x"
  by (auto simp: fl_def Let_def round_half_even_def intro!: mult_nonneg_nonneg)

lemma weight_one: "(domain, data) \<in> set domain_keywords \<Longrightarrow> weight data = 1"
  by (auto simp: domain_keywords_def)

lemma partial_weight: "fmul 1 (fl (7 / 10)) = fl (7 / 10)"
  by code_simp

lemma py_max_snoc:
  "py_max key x (xs @ [y]) = (if key (py_max key x xs) < key y then y else py_max key x xs)"
  by (simp add: py_max_def)

lemma py_max_first:
  "\<exists>i < length (x # xs). py_max key x xs = (x # xs) ! i
      \<and> (\<forall>j < length (x # xs). key ((x # xs) ! j) \<le> key ((x # xs) ! i))
      \<and> (\<forall>j < i. key ((x # xs) ! j) < key ((x # xs) ! i))"
proof (induction xs rule: rev_induct)
  case Nil
  show ?case by (simp add: py_max_def)
next
  case (snoc y xs)
  then obtain i where i: "i < length (x # xs)" "py_max key x xs = (x # xs) ! i"
    "\<forall>j < length (x # xs). key ((x # xs) ! j) \<le> key ((x # xs) ! i)"
    "\<forall>j < i. key ((x # xs) ! j) < key ((x # xs) ! i)" by blast
  let ?l = "x # xs @ [y]"
  have pre: "\<And>j. j < length (x # xs) \<Longrightarrow> ?l ! j = (x # xs) ! j"
    by (metis append_Cons nth_append)
  have lst: "?l ! length (x # xs) = y"
    by (metis append_Cons nth_append_length)
  show ?case
  proof (cases "key (py_max key x xs) < key y")
    case True
    have "py_max key x (xs @ [y]) = ?l ! length (x # xs)"
      using True lst by (simp add: py_max_snoc)
    moreover have "\<forall>j < length ?l. key (?l ! j) \<le> key (?l ! length (x # xs))"
    proof (intro allI impI)
      fix j assume "j < length ?l"
      then consider "j < length (x # xs)" | "j = length (x # xs)" by fastforce
      then show "key (?l ! j) \<le> key (?l ! length (x # xs))"
      proof cases
        case 1
        then have "key (?l ! j) \<le> key ((x # xs) ! i)" using pre i(3) by simp
        then show ?thesis using True i(2) lst by simp
      next
        case 2
        then show ?thesis by simp
      qed
    qed
    moreover have "\<forall>j < length (x # xs). key (?l ! j) < key (?l ! length (x # xs))"
    proof (intro allI impI)
      fix j assume j: "j < length (x # xs)"
      then have "key (?l ! j) \<le> key ((x # xs) ! i)" using pre i(3) by simp
      then show "key (?l ! j) < key (?l ! length (x # xs))" using True i(2) lst by simp
    qed
    ultimately show ?thesis
      by (intro exI[of _ "length (x # xs)"]) simp
  next
    case False
    have "py_max key x (xs @ [y]) = ?l ! i"
      using False i(1,2) pre by (simp add: py_max_snoc)
    moreover have "\<forall>j < length ?l. key (?l ! j) \<le> key (?l ! i)"
    proof (intro allI impI)
      fix j assume "j < length ?l"
      then consider "j < length (x # xs)" | "j = length (x # xs)" by fastforce
      then show "key (?l ! j) \<le> key (?l ! i)"
      proof cases
        case 1
        then show ?thesis using pre i(1,3) by simp
      next
        case 2
        then show ?thesis using False i(1,2) lst pre by simp
      qed
    qed
    moreover have "\<forall>j < i. key (?l ! j) < key (?l ! i)"
    proof (intro allI impI)
      fix j assume j: "j < i"
      then have "j < length (x # xs)" using i(1) by linarith
      then have "?l ! j = (x # xs) ! j" "?l ! i = (x # xs) ! i" using pre i(1) by blast+
      then show "key (?l ! j) < key (?l ! i)" using i(4) j by metis
    qed
    ultimately show ?thesis using i(1)
      by (intro exI[of _ i]) simp
  qed
qed

lemma example_log_loaded:
  "load_conversation_history now today example_log = [conv1, conv2, conv3]"
  by (simp add: example_log_def load_conversation_history_def backfill_def dict_has_def
        conv1_def conv2_def conv3_def)


subsection \<open>Recent conversations\<close>

text \<open>
  Claim C6. For every integer \<open>n\<close> and every stored log, \<open>get_recent_conversations n\<close>
  returns exactly \<open>min (max n 1) (len log)\<close> records, and they are the tail of the log in
  its original order: whatever was dropped comes before them. For \<open>n \<le> 0\<close> the result is
  that of \<open>n = 1\<close>, and for \<open>n\<close> beyond the length of the log it is the whole log.
\<close>

theorem get_recent_conversations_tail:
  "length (get_recent_conversations now today f n)
     = nat (min (max n 1) (int (length (load_conversation_history now today f))))
   \<and> get_recent_conversations now today f n
     = drop (length (load_conversation_history now today f)
             - length (get_recent_conversations now today f n))
         (load_conversation_history now today f)
   \<and> (n \<le> 0 \<longrightarrow>
        get_recent_conversations now today f n = get_recent_conversations now today f 1)
   \<and> (int (length (load_conversation_history now today f)) \<le> n \<longrightarrow>
        get_recent_conversations now today f n = load_conversation_history now today f)"
proof -
  define hist where "hist = load_conversation_history now today f"
  define res where "res = get_recent_conversations now today f n"
  have len: "length res = nat (min (max n 1) (int (length hist)))"
    unfolding res_def hist_def get_recent_conversations_def slice_last_def Let_def
    by (cases "load_conversation_history now today f = []") auto
  have tail: "res = drop (length hist - length res) hist"
    unfolding res_def hist_def get_recent_conversations_def slice_last_def Let_def
    by (cases "load_conversation_history now today f = []") (auto simp: nat_diff_distrib')
  have low: "n \<le> 0 \<longrightarrow> res = get_recent_conversations now today f 1"
    unfolding res_def get_recent_conversations_def Let_def
    by (auto simp: max_def min_def)
  have high: "int (length hist) \<le> n \<longrightarrow> res = hist"
    unfolding res_def hist_def get_recent_conversations_def slice_last_def Let_def
    by (auto simp: max_def min_def)
  from len tail low high show ?thesis
    unfolding res_def hist_def by blast
qed

theorem get_recent_conversations_tail_witness:
  "length (get_recent_conversations ''n'' ''t'' example_log 2) = 2
   \<and> get_recent_conversations ''n'' ''t'' example_log 2
      = drop 1 (load_conversation_history ''n'' ''t'' example_log)
   \<and> (0::int) \<le> 0
   \<and> get_recent_conversations ''n'' ''t'' example_log 0
      = get_recent_conversations ''n'' ''t'' example_log 1
   \<and> int (length (load_conversation_history ''n'' ''t'' example_log)) \<le> 7
   \<and> get_recent_conversations ''n'' ''t'' example_log 7
      = load_conversation_history ''n'' ''t'' example_log"
proof -
  have len: "length (load_conversation_history ''n'' ''t'' example_log) = 3"
    by (simp add: example_log_loaded)
  note two = get_recent_conversations_tail[of "''n''" "''t''" example_log 2]
  note zero = get_recent_conversations_tail[of "''n''" "''t''" example_log 0]
  note seven = get_recent_conversations_tail[of "''n''" "''t''" example_log 7]
  have l2: "length (get_recent_conversations ''n'' ''t'' example_log 2) = 2"
    using two by (simp add: len)
  have d2: "get_recent_conversations ''n'' ''t'' example_log 2
      = drop 1 (load_conversation_history ''n'' ''t'' example_log)"
    using two unfolding l2 len by simp
  have z: "get_recent_conversations ''n'' ''t'' example_log 0
      = get_recent_conversations ''n'' ''t'' example_log 1"
    using zero by simp
  have s: "get_recent_conversations ''n'' ''t'' example_log 7
      = load_conversation_history ''n'' ''t'' example_log"
    using seven by (simp add: len)
  from l2 d2 z s show ?thesis by (simp add: len)
qed

subsection \<open>The domain classifier\<close>

lemma domain_scores_lookup:
  "(domain, data) \<in> set domain_keywords \<Longrightarrow>
     map_of (domain_scores m) domain = Some (domain_score m data)"
  by (auto simp: domain_scores_def domain_keywords_def)

lemma score_step_cases:
  "(domain, data) \<in> set domain_keywords \<Longrightarrow>
   score_step message_lower data score keyword =
     (if py_in ('' '' @ keyword @ '' '') ('' '' @ message_lower @ '' '')
      then fl (score + 1)
      else if py_in keyword message_lower then fl (score + fl (7 / 10))
      else score)"
  using whole_word_in[of keyword message_lower]
  by (auto simp: score_step_def weight_one partial_weight fadd_def
        simp del: append.simps)

lemma double_seven_tenths: "fl (7 / 10) = 3152519739159347 / 4503599627370496"
  by code_simp

text \<open>
  Claim C3. In \<open>classify_message_domain\<close>, for every message and every domain, the score
  of the domain is what the scoring loop builds from 0 over the keywords of the domain in
  their order, on the lower-cased message: a keyword adds exactly 1.0 (the sum is rounded
  as a float) when the message between two spaces contains the keyword between two
  spaces; otherwise it adds exactly 0.7, the float of that literal, when the keyword
  occurs in the message; otherwise it leaves the score as it is. The three cases exclude
  one another, so no keyword adds both 1.0 and 0.7. This score is the entry of the domain
  among the scores from which \<open>classify_message_domain\<close> takes the maximum.
\<close>

theorem keyword_contribution:
  assumes "(domain, data) \<in> set domain_keywords"
  shows "score_step message_lower data score keyword =
           (if py_in ('' '' @ keyword @ '' '') ('' '' @ message_lower @ '' '')
            then fl (score + 1)
            else if py_in keyword message_lower then fl (score + fl (7 / 10))
            else score)
       \<and> domain_score (py_lower message) data =
           foldl (\<lambda>score keyword.
                    if py_in ('' '' @ keyword @ '' '') ('' '' @ py_lower message @ '' '')
                    then fl (score + 1)
                    else if py_in keyword (py_lower message) then fl (score + fl (7 / 10))
                    else score)
             0 (keyword_list data)
       \<and> map_of (domain_scores (py_lower message)) domain
           = Some (domain_score (py_lower message) data)
       \<and> fl (7 / 10) = 3152519739159347 / 4503599627370496
       \<and> (message \<noteq> [] \<longrightarrow>
            classify_message_domain message =
              (let best = py_max snd (hd (domain_scores (py_lower message)))
                            (tl (domain_scores (py_lower message)))
               in if 0 < snd best then fst best else ''general''))"
proof -
  have step: "score_step m data = (\<lambda>score keyword.
                    if py_in ('' '' @ keyword @ '' '') ('' '' @ m @ '' '')
                    then fl (score + 1)
                    else if py_in keyword m then fl (score + fl (7 / 10))
                    else score)" for m
    by (intro ext) (rule score_step_cases[OF assms])
  have ds: "domain_scores (py_lower message) \<noteq> []"
    by (simp add: domain_scores_def domain_keywords_def)
  have cl: "message \<noteq> [] \<longrightarrow>
            classify_message_domain message =
              (let best = py_max snd (hd (domain_scores (py_lower message)))
                            (tl (domain_scores (py_lower message)))
               in if 0 < snd best then fst best else ''general'')"
    using ds by (cases "domain_scores (py_lower message)")
      (simp_all add: classify_message_domain_def)
  show ?thesis
    using score_step_cases[OF assms, of message_lower score keyword]
      step[of "py_lower message"] domain_scores_lookup[OF assms] double_seven_tenths cl
    by (simp only: domain_score_def simp_thms)
qed

theorem keyword_contribution_witness:
  "(''work'', snd (hd domain_keywords)) \<in> set domain_keywords
   \<and> score_step ''a meeting now'' (snd (hd domain_keywords)) 1 ''meeting'' = 2
   \<and> score_step ''my workout'' (snd (hd domain_keywords))
         (3152519739159347 / 4503599627370496) ''work''
       = 3152519739159347 / 2251799813685248
   \<and> score_step ''hello there'' (snd (hd domain_keywords)) 1 ''work'' = 1
   \<and> domain_score (py_lower ''My jobs: meeting the BOSS about workout tasks'')
         (snd (hd domain_keywords))
       = 2308094809027379 / 562949953421312
   \<and> map_of (domain_scores (py_lower ''My jobs: meeting the BOSS about workout tasks'')) ''work''
       = Some (2308094809027379 / 562949953421312)
   \<and> classify_message_domain ''My jobs: meeting the BOSS about workout tasks'' = ''work''"
proof -
  let ?m = "''My jobs: meeting the BOSS about workout tasks''"
  have mem: "(''work'', snd (hd domain_keywords)) \<in> set domain_keywords"
    by (simp add: domain_keywords_def)
  note t1 = keyword_contribution[OF mem, of "''a meeting now''" 1 "''meeting''" ?m]
  note t2 = keyword_contribution[OF mem, of "''my workout''"
      "3152519739159347 / 4503599627370496" "''work''" ?m]
  note t3 = keyword_contribution[OF mem, of "''hello there''" 1 "''work''" ?m]
  have c1: "py_in ('' '' @ ''meeting'' @ '' '') ('' '' @ ''a meeting now'' @ '' '')" by simp
  have c2: "\<not> py_in ('' '' @ ''work'' @ '' '') ('' '' @ ''my workout'' @ '' '')" by simp
  have c3: "py_in ''work'' ''my workout''" by simp
  have c4: "\<not> py_in ('' '' @ ''work'' @ '' '') ('' '' @ ''hello there'' @ '' '')" by simp
  have c5: "\<not> py_in ''work'' ''hello there''" by simp
  have a1: "fl (1 + 1) = 2" by code_simp
  have a2: "fl (3152519739159347 / 4503599627370496 + fl (7 / 10))
      = 3152519739159347 / 2251799813685248" by code_simp
  have s1: "score_step ''a meeting now'' (snd (hd domain_keywords)) 1 ''meeting'' = 2"
    using t1 c1 a1 by presburger
  have s2: "score_step ''my workout'' (snd (hd domain_keywords))
         (3152519739159347 / 4503599627370496) ''work''
       = 3152519739159347 / 2251799813685248"
    using t2 c2 c3 a2 by presburger
  have s3: "score_step ''hello there'' (snd (hd domain_keywords)) 1 ''work'' = 1"
    using t3 c4 c5 by presburger
  have f: "foldl (\<lambda>score keyword.
                    if py_in ('' '' @ keyword @ '' '') ('' '' @ py_lower ?m @ '' '')
                    then fl (score + 1)
                    else if py_in keyword (py_lower ?m) then fl (score + fl (7 / 10))
                    else score)
             0 (keyword_list (snd (hd domain_keywords)))
      = 2308094809027379 / 562949953421312"
    by code_simp
  have d: "domain_score (py_lower ?m) (snd (hd domain_keywords))
       = 2308094809027379 / 562949953421312"
    using t1 f by presburger
  have l: "map_of (domain_scores (py_lower ?m)) ''work''
       = Some (2308094809027379 / 562949953421312)"
    using t1 d by presburger
  have b: "(let best = py_max snd (hd (domain_scores (py_lower ?m))) (tl (domain_scores (py_lower ?m)))
            in if 0 < snd best then fst best else ''general'') = ''work''"
    by code_simp
  have ne: "?m \<noteq> []" by simp
  have c: "classify_message_domain ?m = ''work''"
    using t1 ne b by presburger
  from mem s1 s2 s3 d l c show ?thesis by blast
qed

lemma score_step_nonneg:
  "0 \<le> weight data \<Longrightarrow> 0 \<le> s \<Longrightarrow> 0 \<le> score_step m data s k"
  by (auto simp: score_step_def fadd_def fmul_def
        intro!: fl_nonneg add_nonneg_nonneg mult_nonneg_nonneg)

lemma foldl_score_nonneg:
  "0 \<le> weight data \<Longrightarrow> 0 \<le> s \<Longrightarrow> 0 \<le> foldl (score_step m data) s ks"
  by (induction ks arbitrary: s) (auto simp: score_step_nonneg)

lemma domain_score_nonneg:
  "(domain, data) \<in> set domain_keywords \<Longrightarrow> 0 \<le> domain_score m data"
  by (simp add: domain_score_def foldl_score_nonneg weight_one)

lemma domain_scores_nonneg: "p \<in> set (domain_scores m) \<Longrightarrow> 0 \<le> snd p"
  by (auto simp: domain_scores_def domain_score_nonneg)

lemma domain_scores_names:
  "map fst (domain_scores m)
     = [''work'', ''family'', ''entertainment'', ''health'', ''learning'', ''finance'']"
  by (simp add: domain_scores_def domain_keywords_def)

lemma domain_scores_empty_message: "p \<in> set (domain_scores []) \<Longrightarrow> snd p = 0"
  by (auto simp: domain_scores_def domain_keywords_def domain_score_def score_step_def)

text \<open>
  Claim C4. The scores are computed for work, family, entertainment, health, learning and
  finance in this order. When every score is 0 the classifier returns general, and so it
  does for the empty message. Otherwise it returns a domain whose score is positive and
  is not exceeded by any other, and every domain before it in the order has a strictly
  smaller score: the highest score wins and the first domain wins a tie.
\<close>

theorem classify_message_domain_highest:
  "map fst (domain_scores (py_lower message))
     = [''work'', ''family'', ''entertainment'', ''health'', ''learning'', ''finance'']
   \<and> ((\<forall>p \<in> set (domain_scores (py_lower message)). snd p = 0) \<longrightarrow>
        classify_message_domain message = ''general'')
   \<and> ((\<exists>p \<in> set (domain_scores (py_lower message)). snd p \<noteq> 0) \<longrightarrow>
        (\<exists>i < length (domain_scores (py_lower message)).
           classify_message_domain message = fst (domain_scores (py_lower message) ! i)
         \<and> 0 < snd (domain_scores (py_lower message) ! i)
         \<and> (\<forall>j < length (domain_scores (py_lower message)).
              snd (domain_scores (py_lower message) ! j) \<le> snd (domain_scores (py_lower message) ! i))
         \<and> (\<forall>j < i.
              snd (domain_scores (py_lower message) ! j) < snd (domain_scores (py_lower message) ! i))))
   \<and> classify_message_domain [] = ''general''"
proof -
  define ds where "ds = domain_scores (py_lower message)"
  have names: "map fst ds = [''work'', ''family'', ''entertainment'', ''health'', ''learning'', ''finance'']"
    unfolding ds_def by (rule domain_scores_names)
  then obtain item items where cons: "ds = item # items"
    by (cases ds) auto
  obtain i where i: "i < length ds" "py_max snd item items = ds ! i"
    "\<forall>j < length ds. snd (ds ! j) \<le> snd (ds ! i)"
    "\<forall>j < i. snd (ds ! j) < snd (ds ! i)"
    using py_max_first[of item items snd] cons by blast
  have zero: "(\<forall>p \<in> set ds. snd p = 0) \<longrightarrow> classify_message_domain message = ''general''"
  proof
    assume z: "\<forall>p \<in> set ds. snd p = 0"
    have "ds ! i \<in> set ds" using i(1) by simp
    then have "snd (py_max snd item items) = 0" using z i(2) by simp
    then show "classify_message_domain message = ''general''"
      using cons by (simp add: classify_message_domain_def ds_def[symmetric])
  qed
  have pos: "(\<exists>p \<in> set ds. snd p \<noteq> 0) \<longrightarrow>
        (\<exists>i < length ds. classify_message_domain message = fst (ds ! i) \<and> 0 < snd (ds ! i)
         \<and> (\<forall>j < length ds. snd (ds ! j) \<le> snd (ds ! i))
         \<and> (\<forall>j < i. snd (ds ! j) < snd (ds ! i)))"
  proof
    assume "\<exists>p \<in> set ds. snd p \<noteq> 0"
    then obtain p where p: "p \<in> set ds" "snd p \<noteq> 0" by blast
    have ne: "message \<noteq> []"
    proof
      assume "message = []"
      then have "ds = domain_scores []" by (simp add: ds_def py_lower_def)
      then show False using p domain_scores_empty_message by blast
    qed
    have "0 \<le> snd p" using p(1) domain_scores_nonneg ds_def by blast
    then have "0 < snd p" using p(2) by simp
    moreover obtain j where "j < length ds" "ds ! j = p"
      using p(1) by (meson in_set_conv_nth)
    ultimately have mx: "0 < snd (ds ! i)" using i(3) by fastforce
    have "classify_message_domain message = fst (ds ! i)"
      using cons ne mx i(2) by (simp add: classify_message_domain_def ds_def[symmetric])
    then show "\<exists>i < length ds. classify_message_domain message = fst (ds ! i) \<and> 0 < snd (ds ! i)
         \<and> (\<forall>j < length ds. snd (ds ! j) \<le> snd (ds ! i))
         \<and> (\<forall>j < i. snd (ds ! j) < snd (ds ! i))"
      using i mx by blast
  qed
  have emp: "classify_message_domain [] = ''general''"
    by (simp add: classify_message_domain_def)
  from names zero pos emp show ?thesis unfolding ds_def by blast
qed

theorem classify_message_domain_highest_witness:
  "(\<exists>p \<in> set (domain_scores (py_lower ''I have a meeting tomorrow'')). snd p \<noteq> 0)
   \<and> classify_message_domain ''I have a meeting tomorrow'' = ''work''
   \<and> map snd (domain_scores (py_lower ''Hello'')) = [0, 0, 0, 0, 0, 0]
   \<and> classify_message_domain ''Hello'' = ''general''"
proof -
  have s1: "domain_scores (py_lower ''I have a meeting tomorrow'')
      = [(''work'', 1), (''family'', 0), (''entertainment'', 0), (''health'', 0),
         (''learning'', 0), (''finance'', 0)]"
    by code_simp
  have s2: "domain_scores (py_lower ''Hello'')
      = [(''work'', 0), (''family'', 0), (''entertainment'', 0), (''health'', 0),
         (''learning'', 0), (''finance'', 0)]"
    by code_simp
  have h1: "\<exists>p \<in> set (domain_scores (py_lower ''I have a meeting tomorrow'')). snd p \<noteq> 0"
    unfolding s1 by simp
  have h2: "\<forall>p \<in> set (domain_scores (py_lower ''Hello'')). snd p = 0"
    unfolding s2 by simp
  from classify_message_domain_highest[of "''I have a meeting tomorrow''"] h1
  obtain i where i: "i < length (domain_scores (py_lower ''I have a meeting tomorrow''))"
    "classify_message_domain ''I have a meeting tomorrow''
       = fst (domain_scores (py_lower ''I have a meeting tomorrow'') ! i)"
    "0 < snd (domain_scores (py_lower ''I have a meeting tomorrow'') ! i)"
    by blast
  have "i = 0"
  proof (rule ccontr)
    assume "i \<noteq> 0"
    then have "i \<in> {1, 2, 3, 4, 5}" using i(1) unfolding s1 by auto
    then show False using i(3) unfolding s1 by auto
  qed
  then have r1: "classify_message_domain ''I have a meeting tomorrow'' = ''work''"
    using i(2) unfolding s1 by simp
  from classify_message_domain_highest[of "''Hello''"] h2
  have r2: "classify_message_domain ''Hello'' = ''general''" by blast
  have z: "map snd (domain_scores (py_lower ''Hello'')) = [0, 0, 0, 0, 0, 0]"
    unfolding s2 by simp
  from h1 r1 z r2 show ?thesis by blast
qed

subsection \<open>Loading the log\<close>

lemma map_of_backfill:
  "map_of (backfill now today d) k =
     (case map_of d k of
        Some v \<Rightarrow> Some v
      | None \<Rightarrow>
          if k = ''timestamp'' then Some (JStr now)
          else if k = ''date'' then Some (JStr today)
          else if k = ''domain'' then Some (JStr ''general'')
          else None)"
  by (auto simp: backfill_def Let_def dict_has_def dict_set_def update_conv split: option.splits)

lemma validate_loop_eq:
  "validate_loop now today entries acc
     = acc @ map (backfill now today \<circ> entry_dict) (filter has_both_keys entries)"
  by (induction entries arbitrary: acc)
     (auto simp: has_both_keys_def entry_dict_def split: json.splits)

lemma load_doc_list:
  "load_conversation_history now today (Doc (JList entries))
     = map (backfill now today \<circ> entry_dict) (filter has_both_keys entries)"
  by (simp add: load_conversation_history_def validate_loop_eq)

lemma load_not_a_list:
  "load_conversation_history now today Missing = []"
  "load_conversation_history now today Unreadable = []"
  "load_conversation_history now today Corrupt = []"
  "load_conversation_history now today (Doc JNull) = []"
  "load_conversation_history now today (Doc (JBool b)) = []"
  "load_conversation_history now today (Doc (JInt n)) = []"
  "load_conversation_history now today (Doc (JStr s)) = []"
  "load_conversation_history now today (Doc (JDict d)) = []"
  by (simp_all add: load_conversation_history_def)

text \<open>
  Claim C8, as the code has it. From a document that is a list,
  \<open>load_conversation_history\<close> returns, in the order of the file, exactly the entries that
  are objects holding both a \<open>user\<close> and an \<open>assistant\<close> key, whatever the values under
  these keys are (empty text included), and no other entry makes the read fail. A file
  that is absent, unreadable, not JSON or not a list gives the empty list. In each
  returned record a missing \<open>timestamp\<close>, \<open>date\<close> or \<open>domain\<close> is filled with now, today
  and \<open>general\<close>, and every key that was there keeps its value.
\<close>

theorem load_conversation_history_keeps_keyed_entries:
  "load_conversation_history now today (Doc (JList entries))
     = map (backfill now today \<circ> entry_dict) (filter has_both_keys entries)
   \<and> load_conversation_history now today Missing = []
   \<and> load_conversation_history now today Unreadable = []
   \<and> load_conversation_history now today Corrupt = []
   \<and> load_conversation_history now today (Doc JNull) = []
   \<and> load_conversation_history now today (Doc (JBool b)) = []
   \<and> load_conversation_history now today (Doc (JInt n)) = []
   \<and> load_conversation_history now today (Doc (JStr s)) = []
   \<and> load_conversation_history now today (Doc (JDict d')) = []
   \<and> map_of (backfill now today d) k =
       (case map_of d k of
          Some v \<Rightarrow> Some v
        | None \<Rightarrow>
            if k = ''timestamp'' then Some (JStr now)
            else if k = ''date'' then Some (JStr today)
            else if k = ''domain'' then Some (JStr ''general'')
            else None)"
  by (simp only: load_doc_list load_not_a_list map_of_backfill simp_thms)

theorem load_conversation_history_keeps_keyed_entries_witness:
  "load_conversation_history ''now'' ''today'' (Doc mixed_document)
     = [[(''user'', JStr ''hi''), (''assistant'', JStr ''hello''), (''domain'', JStr ''work''),
         (''timestamp'', JStr ''now''), (''date'', JStr ''today'')],
        [(''assistant'', JStr []), (''user'', JStr []), (''date'', JStr ''d''),
         (''timestamp'', JStr ''now''), (''domain'', JStr ''general'')]]
   \<and> map_of (backfill ''now'' ''today'' [(''user'', JStr ''hi'')]) ''domain''
       = Some (JStr ''general'')"
proof -
  note t = load_conversation_history_keeps_keyed_entries
    [of "''now''" "''today''" _ _ _ _ _ "[(''user'', JStr ''hi'')]" "''domain''"]
  have a: "load_conversation_history ''now'' ''today'' (Doc mixed_document)
     = map (backfill ''now'' ''today'' \<circ> entry_dict)
         (filter has_both_keys
           [JDict [(''user'', JStr ''hi''), (''assistant'', JStr ''hello''), (''domain'', JStr ''work'')],
            JInt 3,
            JDict [(''user'', JStr ''only a user'')],
            JStr ''text'',
            JDict [(''assistant'', JStr []), (''user'', JStr []), (''date'', JStr ''d'')]])"
    unfolding mixed_document_def using t by blast
  have b: "map_of (backfill ''now'' ''today'' [(''user'', JStr ''hi'')]) ''domain''
       = Some (JStr ''general'')"
    using t by simp
  show ?thesis
    unfolding a using b
    by (simp add: has_both_keys_def entry_dict_def backfill_def dict_has_def dict_set_def)
qed

text \<open>
  The claim as stated asks that every returned record has non-empty user and assistant
  text. An entry whose two texts are empty is returned all the same.
\<close>

theorem load_conversation_history_counterexample:
  "load_conversation_history ''now'' ''today''
       (Doc (JList [JDict [(''user'', JStr ''''), (''assistant'', JStr '''')]]))
     = [[(''user'', JStr ''''), (''assistant'', JStr ''''), (''timestamp'', JStr ''now''),
         (''date'', JStr ''today''), (''domain'', JStr ''general'')]]
   \<and> \<not> nonempty_text_record
         [(''user'', JStr ''''), (''assistant'', JStr ''''), (''timestamp'', JStr ''now''),
          (''date'', JStr ''today''), (''domain'', JStr ''general'')]"
  by (simp add: load_conversation_history_def backfill_def dict_has_def dict_set_def
        nonempty_text_record_def nonempty_text_def)

subsection \<open>Saving a conversation\<close>

lemma backfill_complete: "complete_record d \<Longrightarrow> backfill now today d = d"
  by (simp add: complete_record_def backfill_def)

lemma backfill_makes_complete:
  "dict_has d ''user'' \<Longrightarrow> dict_has d ''assistant'' \<Longrightarrow> complete_record (backfill now today d)"
  by (auto simp: complete_record_def dict_has_def map_of_backfill split: option.splits)

lemma loaded_complete:
  assumes "conv \<in> set (load_conversation_history now today f)"
  shows "complete_record conv"
proof -
  from assms obtain entries where f: "f = Doc (JList entries)"
    by (auto simp: load_conversation_history_def split: file_state.splits json.splits)
  with assms obtain e where e: "e \<in> set entries" "has_both_keys e"
    "conv = backfill now today (entry_dict e)"
    by (auto simp: load_doc_list)
  from e(2) obtain d where "e = JDict d" "dict_has d ''user''" "dict_has d ''assistant''"
    by (auto simp: has_both_keys_def split: json.splits)
  then show ?thesis using e(3) by (simp add: entry_dict_def backfill_makes_complete)
qed

lemma new_conversation_complete: "complete_record (new_conversation now today u b d)"
  by (simp add: complete_record_def new_conversation_def dict_has_def)

lemma reload_complete:
  "\<forall>conv \<in> set h. complete_record conv \<Longrightarrow>
     load_conversation_history now today (Doc (JList (map JDict h))) = h"
proof (induction h)
  case Nil
  show ?case by (simp add: load_doc_list)
next
  case (Cons c h)
  then have c: "complete_record c" and ih: "load_conversation_history now today (Doc (JList (map JDict h))) = h"
    by simp_all
  have k: "has_both_keys (JDict c)" using c by (simp add: has_both_keys_def complete_record_def)
  show ?case using ih k c by (simp add: load_doc_list entry_dict_def backfill_complete)
qed

lemma capped_history_suffix:
  "\<exists>dropped. load_conversation_history now today f @ [conv]
      = dropped @ capped_history now today f conv"
proof (cases "100 < length (load_conversation_history now today f @ [conv])")
  case True
  then have "capped_history now today f conv
      = drop (length (load_conversation_history now today f @ [conv]) - 100)
          (load_conversation_history now today f @ [conv])"
    by (simp add: capped_history_def slice_last_def Let_def nat_diff_distrib')
  then show ?thesis by (metis append_take_drop_id)
next
  case False
  then have "capped_history now today f conv = load_conversation_history now today f @ [conv]"
    by (simp add: capped_history_def Let_def)
  then show ?thesis by simp
qed

lemma length_capped_history:
  "length (capped_history now today f conv)
     = min 100 (Suc (length (load_conversation_history now today f)))"
  by (auto simp: capped_history_def slice_last_def Let_def)

lemma capped_history_nonempty: "capped_history now today f conv \<noteq> []"
  using length_capped_history[of now today f conv] by auto

lemma last_capped_history: "last (capped_history now today f conv) = conv"
proof -
  obtain dropped where d: "load_conversation_history now today f @ [conv]
      = dropped @ capped_history now today f conv"
    using capped_history_suffix by blast
  have "last (dropped @ capped_history now today f conv) = last (capped_history now today f conv)"
    using capped_history_nonempty by simp
  then show ?thesis using d by (metis last_snoc)
qed

lemma capped_history_complete:
  assumes "c \<in> set (capped_history now today f (new_conversation now today u b d))"
  shows "complete_record c"
proof -
  obtain dropped where d: "load_conversation_history now today f @ [new_conversation now today u b d]
      = dropped @ capped_history now today f (new_conversation now today u b d)"
    using capped_history_suffix by blast
  then have "c \<in> set (load_conversation_history now today f @ [new_conversation now today u b d])"
    using assms by simp
  then show ?thesis using loaded_complete new_conversation_complete by auto
qed

lemma save_conversation_True:
  assumes "save_conversation now today w f u b d = (True, f')"
  shows "f' = Doc (JList (map JDict (capped_history now today f (new_conversation now today u b d))))"
  using assms
  by (auto simp: save_conversation_def Let_def split: if_splits write_outcome.splits)

lemma save_then_load:
  assumes "save_conversation now today w f u b d = (True, f')"
  shows "load_conversation_history now' today' f'
      = capped_history now today f (new_conversation now today u b d)"
  using save_conversation_True[OF assms] reload_complete capped_history_complete by blast

lemma full_log_length: "length (load_conversation_history now today full_log) = 100"
  by (simp add: full_log_def load_doc_list has_both_keys_def dict_has_def)

text \<open>
  Claim C5. After every successful \<open>save_conversation\<close>, whatever the log was before, the
  persisted log holds at most 100 records: the earlier records followed by the new one,
  with the oldest dropped first. When the log held 100 records or more, it holds exactly
  100 afterwards.
\<close>

theorem save_conversation_caps_log:
  assumes "save_conversation now today w f u b d = (True, f')"
  shows "length (load_conversation_history now' today' f') \<le> 100
       \<and> length (load_conversation_history now' today' f')
           = min 100 (Suc (length (load_conversation_history now today f)))
       \<and> (\<exists>dropped. load_conversation_history now today f @ [new_conversation now today u b d]
              = dropped @ load_conversation_history now' today' f')
       \<and> (100 \<le> length (load_conversation_history now today f) \<longrightarrow>
            length (load_conversation_history now' today' f') = 100)"
  unfolding save_then_load[OF assms]
  using capped_history_suffix[of now today f "new_conversation now today u b d"]
  by (simp add: length_capped_history)

theorem save_conversation_caps_log_witness:
  "save_conversation ''n'' ''t'' WriteOk full_log ''hi'' ''hello'' ''work''
     = (True, snd (save_conversation ''n'' ''t'' WriteOk full_log ''hi'' ''hello'' ''work''))
   \<and> 100 \<le> length (load_conversation_history ''n'' ''t'' full_log)
   \<and> length (load_conversation_history ''n2'' ''t2''
         (snd (save_conversation ''n'' ''t'' WriteOk full_log ''hi'' ''hello'' ''work''))) = 100"
proof -
  have ok: "save_conversation ''n'' ''t'' WriteOk full_log ''hi'' ''hello'' ''work''
     = (True, snd (save_conversation ''n'' ''t'' WriteOk full_log ''hi'' ''hello'' ''work''))"
    by (simp add: save_conversation_def Let_def)
  have full: "100 \<le> length (load_conversation_history ''n'' ''t'' full_log)"
    by (simp add: full_log_length)
  from save_conversation_caps_log[OF ok, of "''n2''" "''t2''"] full ok show ?thesis by blast
qed

text \<open>
  Claim C9. After every successful \<open>save_conversation\<close>, the last record of the persisted
  log has as \<open>user\<close> and \<open>assistant\<close> the two inputs stripped of leading and trailing
  whitespace, and as \<open>user_word_count\<close> and \<open>assistant_word_count\<close> the numbers of
  whitespace-separated words of the inputs as they were given.
\<close>

theorem save_conversation_record_fields:
  assumes "save_conversation now today w f u b d = (True, f')"
  shows "load_conversation_history now' today' f' \<noteq> []
       \<and> map_of (last (load_conversation_history now' today' f')) ''user''
           = Some (JStr (py_strip u))
       \<and> map_of (last (load_conversation_history now' today' f')) ''assistant''
           = Some (JStr (py_strip b))
       \<and> map_of (last (load_conversation_history now' today' f')) ''user_word_count''
           = Some (JInt (int (length (py_split u))))
       \<and> map_of (last (load_conversation_history now' today' f')) ''assistant_word_count''
           = Some (JInt (int (length (py_split b))))"
  unfolding save_then_load[OF assms] last_capped_history
  using capped_history_nonempty by (simp add: new_conversation_def)

theorem save_conversation_record_fields_witness:
  "save_conversation ''n'' ''t'' WriteOk Missing ''  hi there '' ''ok  '' ''general''
     = (True, snd (save_conversation ''n'' ''t'' WriteOk Missing ''  hi there '' ''ok  '' ''general''))
   \<and> map_of (last (load_conversation_history ''n2'' ''t2''
         (snd (save_conversation ''n'' ''t'' WriteOk Missing ''  hi there '' ''ok  '' ''general''))))
       ''user'' = Some (JStr ''hi there'')
   \<and> map_of (last (load_conversation_history ''n2'' ''t2''
         (snd (save_conversation ''n'' ''t'' WriteOk Missing ''  hi there '' ''ok  '' ''general''))))
       ''user_word_count'' = Some (JInt 2)
   \<and> save_conversation ''n'' ''t'' WriteOk Missing (''hi'' @ [CHR 0xA0] @ ''there'')
         ([CHR 0x85] @ ''ok'') ''general''
     = (True, snd (save_conversation ''n'' ''t'' WriteOk Missing (''hi'' @ [CHR 0xA0] @ ''there'')
         ([CHR 0x85] @ ''ok'') ''general''))
   \<and> map_of (last (load_conversation_history ''n2'' ''t2''
         (snd (save_conversation ''n'' ''t'' WriteOk Missing (''hi'' @ [CHR 0xA0] @ ''there'')
            ([CHR 0x85] @ ''ok'') ''general''))))
       ''user_word_count'' = Some (JInt 2)
   \<and> map_of (last (load_conversation_history ''n2'' ''t2''
         (snd (save_conversation ''n'' ''t'' WriteOk Missing (''hi'' @ [CHR 0xA0] @ ''there'')
            ([CHR 0x85] @ ''ok'') ''general''))))
       ''assistant'' = Some (JStr ''ok'')"
proof -
  have ok: "save_conversation ''n'' ''t'' WriteOk Missing ''  hi there '' ''ok  '' ''general''
     = (True, snd (save_conversation ''n'' ''t'' WriteOk Missing ''  hi there '' ''ok  '' ''general''))"
    by (simp add: save_conversation_def Let_def)
  have s: "py_strip ''  hi there '' = ''hi there''" by code_simp
  have c: "int (length (py_split ''  hi there '')) = 2" by code_simp
  have ok2: "save_conversation ''n'' ''t'' WriteOk Missing (''hi'' @ [CHR 0xA0] @ ''there'')
         ([CHR 0x85] @ ''ok'') ''general''
     = (True, snd (save_conversation ''n'' ''t'' WriteOk Missing (''hi'' @ [CHR 0xA0] @ ''there'')
         ([CHR 0x85] @ ''ok'') ''general''))"
    by (simp add: save_conversation_def Let_def)
  have s2: "py_strip ([CHR 0x85] @ ''ok'') = ''ok''" by code_simp
  have c2: "int (length (py_split (''hi'' @ [CHR 0xA0] @ ''there''))) = 2" by code_simp
  from save_conversation_record_fields[OF ok, of "''n2''" "''t2''"]
    save_conversation_record_fields[OF ok2, of "''n2''" "''t2''"] ok ok2 s c s2 c2
  show ?thesis by presburger
qed

subsection \<open>Saving the profile\<close>

lemma first_missing_None:
  "first_missing d required = None \<longleftrightarrow> (\<forall>field \<in> set required. field_filled d field)"
  by (induction required) auto

text \<open>
  Claim C7. For every profile record in which \<open>name\<close>, \<open>role\<close> or
  \<open>communication_style\<close> is missing or empty, \<open>save_user_profile\<close> returns \<open>False\<close> and
  the stored profile file is what it was, whatever a write would have done.
\<close>

theorem save_user_profile_rejects_incomplete:
  assumes "\<not> field_filled d ''name'' \<or> \<not> field_filled d ''role''
             \<or> \<not> field_filled d ''communication_style''"
  shows "fst (save_user_profile w f (JDict d)) = Inr False
       \<and> snd (snd (save_user_profile w f (JDict d))) = f"
proof (cases "d = []")
  case True
  then show ?thesis by (simp add: save_user_profile_def py_truthy_def)
next
  case False
  have "first_missing d [''name'', ''role'', ''communication_style''] \<noteq> None"
    using assms first_missing_None[of d "[''name'', ''role'', ''communication_style'']"] by auto
  then obtain field where "first_missing d [''name'', ''role'', ''communication_style''] = Some field"
    by blast
  then show ?thesis using False by (simp add: save_user_profile_def py_truthy_def)
qed

theorem save_user_profile_rejects_incomplete_witness:
  "\<not> field_filled incomplete_profile ''role''
   \<and> fst (save_user_profile WriteOk (Doc (JDict [(''name'', JStr ''Old'')])) (JDict incomplete_profile))
       = Inr False
   \<and> snd (snd (save_user_profile WriteOk (Doc (JDict [(''name'', JStr ''Old'')]))
         (JDict incomplete_profile)))
       = Doc (JDict [(''name'', JStr ''Old'')])"
proof -
  have h: "\<not> field_filled incomplete_profile ''role''"
    by (simp add: field_filled_def incomplete_profile_def py_truthy_def)
  then have "\<not> field_filled incomplete_profile ''name'' \<or> \<not> field_filled incomplete_profile ''role''
      \<or> \<not> field_filled incomplete_profile ''communication_style''"
    by blast
  from save_user_profile_rejects_incomplete[OF this] h show ?thesis by blast
qed

subsection \<open>Statistics\<close>

lemma sum_tally: "sum_list (map snd (tally k xs)) = sum_list (map snd xs) + 1"
  by (induction k xs rule: tally.induct) auto

lemma stats_step_counts:
  assumes "stats_step st conv = Inr st'"
  shows "total_conversations st' = total_conversations st
       \<and> sum_list (map snd (domains st')) = sum_list (map snd (domains st)) + 1
       \<and> sum_list (map snd (dates st')) = sum_list (map snd (dates st)) + 1"
  using assms
  by (auto simp: stats_step_def Let_def sum_tally split: sum.splits if_splits)

lemma stats_loop_counts:
  "stats_loop history st = Inr st' \<Longrightarrow>
     total_conversations st' = total_conversations st
   \<and> sum_list (map snd (domains st')) = sum_list (map snd (domains st)) + int (length history)
   \<and> sum_list (map snd (dates st')) = sum_list (map snd (dates st)) + int (length history)"
proof (induction history arbitrary: st)
  case Nil
  then show ?case by simp
next
  case (Cons conv history)
  from Cons.prems obtain st1 where s1: "stats_step st conv = Inr st1"
    and s2: "stats_loop history st1 = Inr st'"
    by (auto split: sum.splits)
  show ?case using stats_step_counts[OF s1] Cons.IH[OF s2] by simp
qed

lemma as_int_default:
  "as_int (dict_get conv k (JInt 0)) \<noteq> None \<Longrightarrow> as_int (dict_get conv k (JInt n)) \<noteq> None"
  by (auto simp: dict_get_def as_int_def split: option.splits)

lemma stats_step_total:
  assumes "countable_record conv"
  shows "\<exists>st'. stats_step st conv = Inr st'"
proof -
  from assms obtain us where us: "dict_get conv ''user'' (JStr []) = JStr us"
    by (auto simp: countable_record_def split: json.splits)
  from assms obtain as where as: "dict_get conv ''assistant'' (JStr []) = JStr as"
    by (auto simp: countable_record_def split: json.splits)
  from assms obtain x where x: "as_int (dict_get conv ''user_word_count''
      (JInt (int (length (py_split us))))) = Some x"
    using as_int_default[of conv "''user_word_count''"] by (auto simp: countable_record_def)
  from assms obtain y where y: "as_int (dict_get conv ''assistant_word_count''
      (JInt (int (length (py_split as))))) = Some y"
    using as_int_default[of conv "''assistant_word_count''"] by (auto simp: countable_record_def)
  from assms have h: "hashable (dict_get conv ''domain'' (JStr ''general''))"
    "hashable (dict_get conv ''date'' (JStr ''unknown''))"
    by (simp_all add: countable_record_def)
  show ?thesis
    by (simp add: stats_step_def split_len_def add_words_def us as x y h Let_def)
qed

lemma stats_loop_total:
  "\<forall>conv \<in> set history. countable_record conv \<Longrightarrow> \<exists>st'. stats_loop history st = Inr st'"
proof (induction history arbitrary: st)
  case Nil
  show ?case by simp
next
  case (Cons conv history)
  then obtain st1 where "stats_step st conv = Inr st1"
    using stats_step_total[of conv st] by auto
  then show ?case using Cons by simp
qed

lemma example_stats:
  "get_conversation_stats ''n'' ''t'' example_log
     = Inr \<lparr>total_conversations = 3, total_words = 15,
            domains = [(JStr ''work'', 1), (JStr ''family'', 1), (JStr ''entertainment'', 1)],
            dates = [(JStr ''d1'', 1), (JStr ''d2'', 1), (JStr ''d3'', 1)]\<rparr>"
  by (simp add: get_conversation_stats_def example_log_loaded stats_step_def split_len_def
        add_words_def dict_get_def as_int_def hashable_def py_key_eq_def py_split_def is_space_def
        conv1_def conv2_def conv3_def)

text \<open>
  Claim C10. Whenever \<open>get_conversation_stats\<close> returns statistics,
  \<open>total_conversations\<close> is the number of loaded records, and it is also the sum of the
  per-domain counts and the sum of the per-date counts. It does return statistics for
  every log whose records have text under \<open>user\<close> and \<open>assistant\<close>, numbers as word
  counts and hashable values as domain and date.
\<close>

theorem get_conversation_stats_consistent:
  "(get_conversation_stats now today f = Inr st \<longrightarrow>
      total_conversations st = int (length (load_conversation_history now today f))
    \<and> sum_list (map snd (domains st)) = total_conversations st
    \<and> sum_list (map snd (dates st)) = total_conversations st)
   \<and> ((\<forall>conv \<in> set (load_conversation_history now today f). countable_record conv) \<longrightarrow>
        (\<exists>st'. get_conversation_stats now today f = Inr st'))"
proof (intro conjI impI)
  assume r: "get_conversation_stats now today f = Inr st"
  show "total_conversations st = int (length (load_conversation_history now today f))"
    using r stats_loop_counts
    by (fastforce simp: get_conversation_stats_def Let_def split: if_splits)
  show "sum_list (map snd (domains st)) = total_conversations st"
    using r stats_loop_counts
    by (fastforce simp: get_conversation_stats_def Let_def split: if_splits)
  show "sum_list (map snd (dates st)) = total_conversations st"
    using r stats_loop_counts
    by (fastforce simp: get_conversation_stats_def Let_def split: if_splits)
next
  assume "\<forall>conv \<in> set (load_conversation_history now today f). countable_record conv"
  then show "\<exists>st'. get_conversation_stats now today f = Inr st'"
    using stats_loop_total by (simp add: get_conversation_stats_def Let_def)
qed

theorem get_conversation_stats_consistent_witness:
  "get_conversation_stats ''n'' ''t'' example_log
     = Inr \<lparr>total_conversations = 3, total_words = 15,
            domains = [(JStr ''work'', 1), (JStr ''family'', 1), (JStr ''entertainment'', 1)],
            dates = [(JStr ''d1'', 1), (JStr ''d2'', 1), (JStr ''d3'', 1)]\<rparr>
   \<and> int (length (load_conversation_history ''n'' ''t'' example_log)) = 3
   \<and> list_all countable_record (load_conversation_history ''n'' ''t'' example_log)"
proof -
  have c: "list_all countable_record (load_conversation_history ''n'' ''t'' example_log)"
    by (simp add: example_log_loaded countable_record_def dict_get_def as_int_def hashable_def
          conv1_def conv2_def conv3_def)
  then have "\<forall>conv \<in> set (load_conversation_history ''n'' ''t'' example_log). countable_record conv"
    by (simp add: list_all_iff)
  with get_conversation_stats_consistent[of "''n''" "''t''" example_log]
  obtain st' where r: "get_conversation_stats ''n'' ''t'' example_log = Inr st'" by blast
  with get_conversation_stats_consistent[of "''n''" "''t''" example_log st']
  have "total_conversations st' = int (length (load_conversation_history ''n'' ''t'' example_log))"
    by blast
  moreover have "total_conversations st' = 3"
    using r by (auto simp: example_stats)
  ultimately have l: "int (length (load_conversation_history ''n'' ''t'' example_log)) = 3"
    by simp
  from example_stats l c show ?thesis by blast
qed

subsection \<open>Relevant conversations\<close>





lemma count_matches_eq:
  "count_matches text qw m = m + length (filter (\<lambda>word. py_in word text) qw)"
  by (induction qw arbitrary: m) auto

lemma relevance_loop_eq:
  "relevance_loop fmt qw history acc
     = acc @ map (\<lambda>conv. (conv, py_truediv
                    (length (filter (\<lambda>word. py_in word (conv_cleaned fmt conv)) qw)) (length qw)))
               (filter (\<lambda>conv. filter (\<lambda>word. py_in word (conv_cleaned fmt conv)) qw \<noteq> []) history)"
  by (induction history arbitrary: acc) (auto simp: count_matches_eq Let_def)

lemma query_words_of_Nil: "query_words_of [] = []"
  by (simp add: query_words_of_def py_lower_def strip_punct_def py_split_def)

lemma scored_matches_eq:
  "scored_matches fmt now today f query
     = map (\<lambda>conv. (conv, py_truediv (length (matching_words fmt query conv))
                              (length (query_words_of query))))
         (filter (\<lambda>conv. matching_words fmt query conv \<noteq> [])
            (load_conversation_history now today f))"
proof (cases "load_conversation_history now today f = [] \<or> query = [] \<or> query_words_of query = []")
  case True
  then have "query_words_of query = [] \<or> load_conversation_history now today f = []"
    using query_words_of_Nil by auto
  then show ?thesis
    by (auto simp: scored_matches_def Let_def matching_words_def)
next
  case False
  then show ?thesis
    by (simp add: scored_matches_def Let_def matching_words_def relevance_loop_eq)
qed


lemma length_take_clamp:
  "xs \<noteq> [] \<Longrightarrow> length (take (nat (max 1 (min k (int (length xs))))) xs)
     = nat (max 1 (min k (int (length xs))))"
  by (cases xs) (auto simp: max_def min_def)

lemma sort_descending_sorted: "sorted_wrt (\<lambda>a b. snd b \<le> snd a) (sort_descending rel)"
proof -
  have "sorted (map (\<lambda>x. - snd x) (sort_descending rel))"
    unfolding sort_descending_def by (rule sorted_sort_key)
  then show ?thesis by (simp add: sorted_map)
qed

lemma sort_descending_stable:
  "filter (\<lambda>p. snd p = s) (sort_descending rel) = filter (\<lambda>p. snd p = s) rel"
proof -
  have "filter (\<lambda>p. - snd p = - s) (sort_key (\<lambda>x. - snd x) rel) = filter (\<lambda>p. - snd p = - s) rel"
    by (rule sort_key_stable)
  then show ?thesis by (simp add: sort_descending_def)
qed

lemma sort_descending_same:
  "set (sort_descending rel) = set rel" "length (sort_descending rel) = length rel"
  by (simp_all add: sort_descending_def)

lemma find_relevant_eq:
  assumes "scored_matches fmt now today f query \<noteq> []"
  shows "find_relevant_conversations fmt now today f query k
     = map fst (take (nat (max 1 (min k (int (length (scored_matches fmt now today f query))))))
                  (sort_descending (scored_matches fmt now today f query)))"
proof -
  from assms have "load_conversation_history now today f \<noteq> []" "query \<noteq> []"
    "query_words_of query \<noteq> []"
    by (auto simp: scored_matches_def Let_def split: if_splits)
  then show ?thesis
    by (simp add: find_relevant_conversations_def Let_def sort_descending_same)
qed





text \<open>
  Claim C2. For every query with at least one matching record, the result is the values
  of the first \<open>max 1 (min max_results matchCount)\<close> entries of the matching records
  sorted by score. The sorted list has the same entries as the list of matching records,
  its scores descend, and the entries of any one score stand in it in the order they have
  among the matching records, which is their order in the log.
\<close>

theorem find_relevant_conversations_top:
  assumes "scored_matches fmt now today f query \<noteq> []"
  shows "find_relevant_conversations fmt now today f query k
           = map fst (take (nat (max 1 (min k (int (length (scored_matches fmt now today f query))))))
                        (sort_descending (scored_matches fmt now today f query)))
       \<and> length (find_relevant_conversations fmt now today f query k)
           = nat (max 1 (min k (int (length (scored_matches fmt now today f query)))))
       \<and> sorted_wrt (\<lambda>a b. snd b \<le> snd a) (sort_descending (scored_matches fmt now today f query))
       \<and> (\<forall>s. filter (\<lambda>p. snd p = s) (sort_descending (scored_matches fmt now today f query))
               = filter (\<lambda>p. snd p = s) (scored_matches fmt now today f query))
       \<and> set (sort_descending (scored_matches fmt now today f query))
           = set (scored_matches fmt now today f query)
       \<and> length (sort_descending (scored_matches fmt now today f query))
           = length (scored_matches fmt now today f query)
       \<and> map fst (scored_matches fmt now today f query)
           = filter (\<lambda>conv. matching_words fmt query conv \<noteq> [])
               (load_conversation_history now today f)"
proof -
  let ?rel = "scored_matches fmt now today f query"
  have ne: "sort_descending ?rel \<noteq> []" using assms sort_descending_same(2)[of ?rel] by auto
  have len: "length (find_relevant_conversations fmt now today f query k)
           = nat (max 1 (min k (int (length ?rel))))"
    unfolding find_relevant_eq[OF assms]
    using length_take_clamp[OF ne, of k] by (simp add: sort_descending_same)
  have order: "map fst ?rel = filter (\<lambda>conv. matching_words fmt query conv \<noteq> [])
               (load_conversation_history now today f)"
    by (simp add: scored_matches_eq comp_def)
  show ?thesis
    using find_relevant_eq[OF assms, of k] len sort_descending_sorted[of ?rel]
      sort_descending_stable[of _ ?rel] sort_descending_same[of ?rel] order
    by blast
qed

theorem find_relevant_conversations_top_witness:
  "scored_matches (\<lambda>v. []) ''n'' ''t'' example_log ''project dinner movie plans''
     = [(conv1, 1 / 4), (conv2, 1 / 2), (conv3, 1 / 4)]
   \<and> scored_matches (\<lambda>v. []) ''n'' ''t'' example_log ''project dinner movie plans'' \<noteq> []
   \<and> find_relevant_conversations (\<lambda>v. []) ''n'' ''t'' example_log ''project dinner movie plans'' 2
       = [conv2, conv1]
   \<and> find_relevant_conversations (\<lambda>v. []) ''n'' ''t'' example_log ''project dinner movie plans'' 0
       = [conv2]
   \<and> find_relevant_conversations (\<lambda>v. []) ''n'' ''t'' example_log ''project dinner movie plans'' 9
       = [conv2, conv1, conv3]
   \<and> scored_matches (\<lambda>v. []) ''n'' ''t'' cafe_log (cafe @ '' shop'')
       = [(cafe_conv1, 1 / 2), (cafe_conv2, 1)]
   \<and> find_relevant_conversations (\<lambda>v. []) ''n'' ''t'' cafe_log (cafe @ '' shop'') 3
       = [cafe_conv2, cafe_conv1]"
proof -
  have s: "scored_matches (\<lambda>v. []) ''n'' ''t'' example_log ''project dinner movie plans''
     = [(conv1, 1 / 4), (conv2, 1 / 2), (conv3, 1 / 4)]"
    by code_simp
  then have ne: "scored_matches (\<lambda>v. []) ''n'' ''t'' example_log ''project dinner movie plans'' \<noteq> []"
    by simp
  have srt: "sort_descending [(conv1, 1 / 4), (conv2, 1 / 2), (conv3, 1 / 4)]
      = [(conv2, 1 / 2), (conv1, 1 / 4), (conv3, 1 / 4)]"
    by (simp add: sort_descending_def)
  have r2: "find_relevant_conversations (\<lambda>v. []) ''n'' ''t'' example_log ''project dinner movie plans'' 2
       = [conv2, conv1]"
    using find_relevant_conversations_top[OF ne, of 2] unfolding s srt by simp
  have r0: "find_relevant_conversations (\<lambda>v. []) ''n'' ''t'' example_log ''project dinner movie plans'' 0
       = [conv2]"
    using find_relevant_conversations_top[OF ne, of 0] unfolding s srt by simp
  have r9: "find_relevant_conversations (\<lambda>v. []) ''n'' ''t'' example_log ''project dinner movie plans'' 9
       = [conv2, conv1, conv3]"
    using find_relevant_conversations_top[OF ne, of 9] unfolding s srt by simp
  have cs: "scored_matches (\<lambda>v. []) ''n'' ''t'' cafe_log (cafe @ '' shop'')
       = [(cafe_conv1, 1 / 2), (cafe_conv2, 1)]"
    by code_simp
  then have cne: "scored_matches (\<lambda>v. []) ''n'' ''t'' cafe_log (cafe @ '' shop'') \<noteq> []"
    by simp
  have csrt: "sort_descending [(cafe_conv1, 1 / 2), (cafe_conv2, 1)]
      = [(cafe_conv2, 1), (cafe_conv1, 1 / 2)]"
    by (simp add: sort_descending_def)
  have cr: "find_relevant_conversations (\<lambda>v. []) ''n'' ''t'' cafe_log (cafe @ '' shop'') 3
       = [cafe_conv2, cafe_conv1]"
    using find_relevant_conversations_top[OF cne, of 3] unfolding cs csrt by simp
  from s ne r2 r0 r9 cs cr show ?thesis by blast
qed

end
